theory Spec2Isabelle
  imports Main "HOL-Library.Word"
begin

section \<open>The example C project of zbuild: \<open>examples/c_project/src/main.c\<close>\<close>

text \<open>
  The program is a single \<open>main\<close> routine. It prints a banner and the version string,
  echoes its command-line arguments with their positions, prints the result of
  \<open>calculate(10, 20)\<close> and returns 0. The two helpers \<open>get_version\<close> and
  \<open>calculate\<close> are declared in \<open>utils.h\<close> and defined elsewhere; the model takes
  them as parameters: the text that \<open>get_version()\<close> returns, and the function
  \<open>calculate\<close> on C integers. Both are taken to be pure, as the specification describes
  them (4.2, 4.3). The program ignores what \<open>printf\<close> returns, and a failure to write
  is outside the model, as it is outside the specification (7).
\<close>

subsection \<open>C values\<close>

text \<open>
  A C \<open>int\<close> is a 32-bit two's complement word; \<open>sint\<close> reads its value and
  \<open><s\<close> is the signed comparison of C. A C string is the list of the characters
  before its terminating zero.
\<close>

type_synonym cint = "32 word"

definition nl :: char where
  "nl = CHR 0x0A"

subsection \<open>The part of \<open>printf\<close> that the program uses\<close>

text \<open>
  \<open>%d\<close> renders an \<open>int\<close> in decimal: a minus sign for a negative value, then the
  digits of the magnitude with no leading zero.
\<close>

definition digit :: "nat \<Rightarrow> char" where
  "digit d = ''0123456789'' ! d"

fun show_nat :: "nat \<Rightarrow> string" where
  "show_nat n = (if n < 10 then [digit n] else show_nat (n div 10) @ [digit (n mod 10)])"

declare show_nat.simps [simp del]

definition show_int :: "int \<Rightarrow> string" where
  "show_int k = (if k < 0 then CHR ''-'' # show_nat (nat (- k)) else show_nat (nat k))"

text \<open>The number that a string of decimal digits denotes, to state what \<open>show_nat\<close> writes.\<close>

definition digit_value :: "char \<Rightarrow> nat" where
  "digit_value c = of_char c - 48"

definition decimal_value :: "string \<Rightarrow> nat" where
  "decimal_value s = foldl (\<lambda>a c. 10 * a + digit_value c) 0 s"

datatype carg = IntArg cint | StrArg string

text \<open>
  \<open>format\<close> walks the format string. A conversion takes the next argument; a
  conversion with no argument, with an argument of the wrong kind, or one that the program
  never uses is undefined behaviour, the value \<open>None\<close>. Arguments left over are ignored.
\<close>

fun format :: "string \<Rightarrow> carg list \<Rightarrow> string option" where
  "format [] args = Some []"
| "format [c] args = (if c = CHR ''%'' then None else Some [c])"
| "format (c # d # cs) args =
     (if c = CHR ''%'' then
        (if d = CHR ''d'' then
           (case args of
              IntArg w # rest \<Rightarrow> map_option (\<lambda>r. show_int (sint w) @ r) (format cs rest)
            | _ \<Rightarrow> None)
         else if d = CHR ''s'' then
           (case args of
              StrArg s # rest \<Rightarrow> map_option (\<lambda>r. s @ r) (format cs rest)
            | _ \<Rightarrow> None)
         else if d = CHR ''%'' then map_option (\<lambda>r. CHR ''%'' # r) (format cs args)
         else None)
      else map_option (\<lambda>r. c # r) (format (d # cs) args))"

subsection \<open>The state of a run\<close>

text \<open>
  The only state is the text written to standard output so far. \<open>visited\<close> is a
  ghost trace: the values of \<open>i\<close> at which the loop body has run, in order. No code
  reads it.
\<close>

record state =
  stdout :: string
  visited :: "cint list"

definition printf :: "string \<Rightarrow> carg list \<Rightarrow> state \<Rightarrow> state option" where
  "printf fmt args st =
     map_option (\<lambda>txt. st\<lparr>stdout := stdout st @ txt\<rparr>) (format fmt args)"

text \<open>
  \<open>argv[i]\<close>: the entries \<open>argv[0]\<close> .. \<open>argv[argc - 1]\<close> are the list \<open>argv\<close>. A read at
  any other index does not yield a string (it is the null pointer at \<open>argc\<close> and outside
  the array beyond), and printing it with \<open>%s\<close> is undefined: \<open>None\<close>.
\<close>

definition argv_at :: "string list \<Rightarrow> cint \<Rightarrow> string option" where
  "argv_at argv i =
     (if 0 \<le> sint i \<and> nat (sint i) < length argv then Some (argv ! nat (sint i)) else None)"

subsection \<open>\<open>main\<close>\<close>

text \<open>
  \<^verbatim>\<open>for (int i = 1; i < argc; i++) { printf("  [%d]: %s\n", i, argv[i]); }\<close>
  from the state in which \<open>i\<close> has the given value. The loop terminates for every
  \<open>argc\<close>: below \<open>argc\<close> the increment cannot overflow, so \<open>argc - i\<close> decreases.
\<close>

function arg_loop :: "cint \<Rightarrow> string list \<Rightarrow> cint \<Rightarrow> state \<Rightarrow> state option" where
  "arg_loop argc argv i st =
     (if i <s argc then
        (case argv_at argv i of
           None \<Rightarrow> None
         | Some a \<Rightarrow>
             (case printf (''  [%d]: %s'' @ [nl]) [IntArg i, StrArg a] st of
                None \<Rightarrow> None
              | Some st' \<Rightarrow>
                  arg_loop argc argv (i + 1) (st'\<lparr>visited := visited st' @ [i]\<rparr>)))
      else Some st)"
  by pat_completeness auto

termination arg_loop
proof (relation "measure (\<lambda>(argc, argv, i, st). nat (sint argc - sint i))")
  show "wf (measure (\<lambda>(argc, argv, i, st). nat (sint argc - sint i)))"
    by simp
next
  fix argc :: cint and argv :: "string list" and i :: cint and st st' :: state and a :: string
  assume "i <s argc"
  then have lt: "sint i < sint argc"
    by (simp add: word_sless_alt)
  have hi: "sint argc < 2 ^ 31"
    using sint_lt [of argc] by simp
  have lo: "- (2 ^ 31) \<le> sint i"
    using sint_ge [of i] by simp
  have "sint (i + 1) = signed_take_bit 31 (sint i + 1)"
    by (simp add: sint_word_ariths)
  also have "\<dots> = sint i + 1"
    using lt hi lo by (simp add: signed_take_bit_int_eq_self)
  finally have "sint (i + 1) = sint i + 1" .
  with lt show "((argc, argv, i + 1, st'\<lparr>visited := visited st' @ [i]\<rparr>), (argc, argv, i, st))
      \<in> measure (\<lambda>(argc, argv, i, st). nat (sint argc - sint i))"
    by simp
qed

declare arg_loop.simps [simp del]

text \<open>
  \<open>main\<close> returns the final state and the exit code. \<open>get_version\<close> is the string that
  the version provider returns, \<open>calculate\<close> the adder.
\<close>

definition init :: state where
  "init = \<lparr>stdout = [], visited = []\<rparr>"

definition main :: "string \<Rightarrow> (cint \<Rightarrow> cint \<Rightarrow> cint) \<Rightarrow> cint \<Rightarrow> string list \<Rightarrow> (state \<times> cint) option" where
  "main get_version calculate argc argv =
     (case printf (''zbuild Example Project'' @ [nl]) [] init of
        None \<Rightarrow> None
      | Some st1 \<Rightarrow>
     (case printf (''Version: %s'' @ [nl]) [StrArg get_version] st1 of
        None \<Rightarrow> None
      | Some st2 \<Rightarrow>
     (case (if 1 <s argc then
              (case printf (''Arguments:'' @ [nl]) [] st2 of
                 None \<Rightarrow> None
               | Some st3 \<Rightarrow> arg_loop argc argv 1 st3)
            else Some st2) of
        None \<Rightarrow> None
      | Some st4 \<Rightarrow>
     (let result = calculate 10 20 in
      case printf (''10 + 20 = %d'' @ [nl]) [IntArg result] st4 of
        None \<Rightarrow> None
      | Some st5 \<Rightarrow> Some (st5, 0)))))"

subsection \<open>Invocations and what a run shows\<close>

text \<open>
  The hosted environment calls \<open>main\<close> with \<open>argc\<close> the number of strings in
  \<open>argv\<close>. \<open>argv[0]\<close> is the program name; the invocation parameters are the strings
  after it.
\<close>

definition well_formed :: "cint \<Rightarrow> string list \<Rightarrow> bool" where
  "well_formed argc argv \<longleftrightarrow> sint argc = int (length argv)"

definition params :: "string list \<Rightarrow> string list" where
  "params argv = tl argv"

definition run_output :: "string \<Rightarrow> (cint \<Rightarrow> cint \<Rightarrow> cint) \<Rightarrow> cint \<Rightarrow> string list \<Rightarrow> string option" where
  "run_output get_version calculate argc argv =
     map_option (\<lambda>(st, rc). stdout st) (main get_version calculate argc argv)"

definition run_exit :: "string \<Rightarrow> (cint \<Rightarrow> cint \<Rightarrow> cint) \<Rightarrow> cint \<Rightarrow> string list \<Rightarrow> cint option" where
  "run_exit get_version calculate argc argv =
     map_option (\<lambda>(st, rc). rc) (main get_version calculate argc argv)"

definition run_visited :: "string \<Rightarrow> (cint \<Rightarrow> cint \<Rightarrow> cint) \<Rightarrow> cint \<Rightarrow> string list \<Rightarrow> cint list option" where
  "run_visited get_version calculate argc argv =
     map_option (\<lambda>(st, rc). visited st) (main get_version calculate argc argv)"

text \<open>
  The lines of a text: each line feed ends a line, and characters after the last line feed
  are a last line.
\<close>

fun lines_of :: "string \<Rightarrow> string list" where
  "lines_of [] = []"
| "lines_of (c # cs) =
     (if c = nl then [] # lines_of cs
      else (case lines_of cs of [] \<Rightarrow> [[c]] | l # ls \<Rightarrow> (c # l) # ls))"

definition run_lines :: "string \<Rightarrow> (cint \<Rightarrow> cint \<Rightarrow> cint) \<Rightarrow> cint \<Rightarrow> string list \<Rightarrow> string list option" where
  "run_lines get_version calculate argc argv =
     map_option lines_of (run_output get_version calculate argc argv)"

subsection \<open>The lines that the specification names\<close>

definition banner_line :: string where
  "banner_line = ''zbuild Example Project''"

definition version_line :: "string \<Rightarrow> string" where
  "version_line v = ''Version: '' @ v"

definition header_line :: string where
  "header_line = ''Arguments:''"

definition arg_line :: "nat \<Rightarrow> string \<Rightarrow> string" where
  "arg_line k p = ''  ['' @ show_nat k @ '']: '' @ p"

definition sum_line :: "cint \<Rightarrow> string" where
  "sum_line r = ''10 + 20 = '' @ show_int (sint r)"

text \<open>The parameters with their 1-based positions, in the order received.\<close>

definition numbered :: "string list \<Rightarrow> (nat \<times> string) list" where
  "numbered ps = zip [1..<Suc (length ps)] ps"

text \<open>
  Modelled from the spec: the version provider \<open>get_version\<close>, which is defined outside
  \<open>main.c\<close>. The specification describes what it returns as a textual version identifier
  (4.2), printed as "a line containing the string returned by the version provider" (4.1):
  the string is one line of text, with no line feed in it.
\<close>

definition version_identifier :: "string \<Rightarrow> bool" where
  "version_identifier v \<longleftrightarrow> nl \<notin> set v"

text \<open>The part of the output that depends on the parameters.\<close>

definition args_section :: "string list \<Rightarrow> string" where
  "args_section ps =
     (if ps = [] then []
      else header_line @ [nl] @ concat (map (\<lambda>(k, p). arg_line k p @ [nl]) (numbered ps)))"

section \<open>Properties\<close>

subsection \<open>Decimal rendering\<close>

lemma digit_value_digit: "d < 10 \<Longrightarrow> digit_value (digit d) = d"
proof -
  assume "d < 10"
  then have "d \<in> {0, 1, 2, 3, 4, 5, 6, 7, 8, 9}" by auto
  then show ?thesis
    by (auto simp: digit_def digit_value_def)
qed

lemma decimal_value_show_nat: "decimal_value (show_nat n) = n"
proof (induction n rule: show_nat.induct)
  case (1 n)
  show ?case
  proof (cases "n < 10")
    case True
    then show ?thesis
      by (simp add: show_nat.simps [of n] decimal_value_def digit_value_digit)
  next
    case False
    then have "decimal_value (show_nat (n div 10)) = n div 10"
      by (rule "1.IH")
    moreover have "digit_value (digit (n mod 10)) = n mod 10"
      by (rule digit_value_digit) simp
    ultimately show ?thesis
      using False by (simp add: show_nat.simps [of n] decimal_value_def)
  qed
qed

subsection \<open>The scenarios of the specification, run on the model\<close>

text \<open>
  These unfold the definitions of the program on concrete invocations: no parameter, the
  parameter \<open>hello\<close>, and the parameters \<open>foo\<close> and \<open>bar baz\<close>, with the version string
  \<open>1.0.0\<close> and an adder that adds.
\<close>

lemmas run_code =
  main_def printf_def init_def arg_loop.simps argv_at_def word_sless_alt nl_def
  show_int_def show_nat.simps digit_def

lemma scenario_A:
  "main ''1.0.0'' (+) 1 [''prog''] =
     Some (\<lparr>stdout = ''zbuild Example Project'' @ [nl] @ ''Version: 1.0.0'' @ [nl] @
              ''10 + 20 = 30'' @ [nl],
            visited = []\<rparr>, 0)"
  by (simp add: run_code)

lemma scenario_B:
  "main ''1.0.0'' (+) 2 [''prog'', ''hello''] =
     Some (\<lparr>stdout = ''zbuild Example Project'' @ [nl] @ ''Version: 1.0.0'' @ [nl] @
              ''Arguments:'' @ [nl] @ ''  [1]: hello'' @ [nl] @
              ''10 + 20 = 30'' @ [nl],
            visited = [1]\<rparr>, 0)"
  by (simp add: run_code)

lemma scenario_C:
  "main ''1.0.0'' (+) 3 [''prog'', ''foo'', ''bar baz''] =
     Some (\<lparr>stdout = ''zbuild Example Project'' @ [nl] @ ''Version: 1.0.0'' @ [nl] @
              ''Arguments:'' @ [nl] @ ''  [1]: foo'' @ [nl] @ ''  [2]: bar baz'' @ [nl] @
              ''10 + 20 = 30'' @ [nl],
            visited = [1, 2]\<rparr>, 0)"
  by (simp add: run_code)

text \<open>An invocation that the environment cannot make: \<open>argc\<close> beyond the strings of \<open>argv\<close>.\<close>

lemma beyond_argv: "main ''1.0.0'' (+) 3 [''prog'', ''foo''] = None"
  by (simp add: run_code)

subsection \<open>What each call of \<open>printf\<close> writes\<close>

lemma format_banner:
  "format (''zbuild Example Project'' @ [nl]) args = Some (banner_line @ [nl])"
  by (simp add: nl_def banner_line_def)

lemma format_version:
  "format (''Version: %s'' @ [nl]) [StrArg v] = Some (version_line v @ [nl])"
  by (simp add: nl_def version_line_def)

lemma format_header:
  "format (''Arguments:'' @ [nl]) args = Some (header_line @ [nl])"
  by (simp add: nl_def header_line_def)

lemma format_arg:
  "format (''  [%d]: %s'' @ [nl]) [IntArg i, StrArg a] =
     Some (''  ['' @ show_int (sint i) @ '']: '' @ a @ [nl])"
  by (simp add: nl_def)

lemma format_sum:
  "format (''10 + 20 = %d'' @ [nl]) [IntArg r] = Some (sum_line r @ [nl])"
  by (simp add: nl_def sum_line_def)

lemma printf_banner:
  "printf (''zbuild Example Project'' @ [nl]) args st =
     Some (st\<lparr>stdout := stdout st @ banner_line @ [nl]\<rparr>)"
  by (simp only: printf_def format_banner option.map)

lemma printf_version:
  "printf (''Version: %s'' @ [nl]) [StrArg v] st =
     Some (st\<lparr>stdout := stdout st @ version_line v @ [nl]\<rparr>)"
  by (simp only: printf_def format_version option.map)

lemma printf_header:
  "printf (''Arguments:'' @ [nl]) args st =
     Some (st\<lparr>stdout := stdout st @ header_line @ [nl]\<rparr>)"
  by (simp only: printf_def format_header option.map)

lemma printf_arg:
  assumes "0 \<le> sint i"
  shows "printf (''  [%d]: %s'' @ [nl]) [IntArg i, StrArg a] st =
     Some (st\<lparr>stdout := stdout st @ arg_line (nat (sint i)) a @ [nl]\<rparr>)"
  using assms by (simp only: printf_def format_arg option.map) (simp add: arg_line_def show_int_def)

lemma printf_sum:
  "printf (''10 + 20 = %d'' @ [nl]) [IntArg r] st =
     Some (st\<lparr>stdout := stdout st @ sum_line r @ [nl]\<rparr>)"
  by (simp only: printf_def format_sum option.map)

subsection \<open>The loop\<close>

lemma sint_succ_below:
  fixes i argc :: cint
  assumes "i <s argc"
  shows "sint (i + 1) = sint i + 1"
proof -
  have lt: "sint i < sint argc"
    using assms by (simp add: word_sless_alt)
  have hi: "sint argc < 2 ^ 31"
    using sint_lt [of argc] by simp
  have lo: "- (2 ^ 31) \<le> sint i"
    using sint_ge [of i] by simp
  have "sint (i + 1) = signed_take_bit 31 (sint i + 1)"
    by (simp add: sint_word_ariths)
  also have "\<dots> = sint i + 1"
    using lt hi lo by (simp add: signed_take_bit_int_eq_self)
  finally show ?thesis .
qed

lemma arg_loop_closed:
  assumes "well_formed argc argv" and "0 \<le> sint i" and "sint i \<le> sint argc"
  shows "arg_loop argc argv i st =
    Some (st\<lparr>stdout := stdout st @
               concat (map (\<lambda>k. arg_line k (argv ! k) @ [nl]) [nat (sint i)..<length argv]),
             visited := visited st @ map of_nat [nat (sint i)..<length argv]\<rparr>)"
  using assms
proof (induction argc argv i st rule: arg_loop.induct)
  case (1 argc argv i st)
  from "1.prems" have len: "sint argc = int (length argv)"
    by (simp add: well_formed_def)
  show ?case
  proof (cases "i <s argc")
    case False
    with "1.prems" len have "nat (sint i) = length argv"
      by (simp add: word_sless_alt)
    with False show ?thesis
      by (simp add: arg_loop.simps [of argc argv i st])
  next
    case True
    then have lt: "nat (sint i) < length argv"
      using "1.prems" len by (simp add: word_sless_alt)
    have at: "argv_at argv i = Some (argv ! nat (sint i))"
      using lt "1.prems" by (simp add: argv_at_def)
    define st' where "st' = st\<lparr>stdout := stdout st @ arg_line (nat (sint i)) (argv ! nat (sint i)) @ [nl]\<rparr>"
    have pr: "printf (''  [%d]: %s'' @ [nl]) [IntArg i, StrArg (argv ! nat (sint i))] st = Some st'"
      using "1.prems" by (simp only: printf_arg st'_def)
    have nxt: "sint (i + 1) = sint i + 1"
      by (rule sint_succ_below [OF True])
    have nat_nxt: "nat (sint (i + 1)) = Suc (nat (sint i))"
      using nxt "1.prems" by simp
    have ih: "arg_loop argc argv (i + 1) (st'\<lparr>visited := visited st' @ [i]\<rparr>) =
      Some ((st'\<lparr>visited := visited st' @ [i]\<rparr>)\<lparr>stdout := stdout (st'\<lparr>visited := visited st' @ [i]\<rparr>) @
               concat (map (\<lambda>k. arg_line k (argv ! k) @ [nl]) [nat (sint (i + 1))..<length argv]),
             visited := visited (st'\<lparr>visited := visited st' @ [i]\<rparr>) @ map of_nat [nat (sint (i + 1))..<length argv]\<rparr>)"
      using "1.IH" [OF True at pr] "1.prems" nxt True by (simp add: word_sless_alt)
    have upt: "[nat (sint i)..<length argv] = nat (sint i) # [Suc (nat (sint i))..<length argv]"
      using lt by (simp add: upt_conv_Cons)
    have self: "of_nat (nat (sint i)) = i"
      using "1.prems" by simp
    show ?thesis
      using True at pr ih nat_nxt upt self
      by (simp add: arg_loop.simps [of argc argv i st] st'_def)
  qed
qed

lemma index_numbered:
  "map (\<lambda>k. f k (argv ! k)) [Suc 0..<length argv] = map (\<lambda>(k, p). f k p) (numbered (params argv))"
proof (cases argv)
  case Nil
  then show ?thesis
    by (simp add: numbered_def params_def)
next
  case (Cons a ps)
  show ?thesis
    unfolding Cons numbered_def params_def
    by (rule nth_equalityI) (simp_all del: upt_Suc)
qed

lemma more_than_one:
  assumes "well_formed argc argv"
  shows "1 <s argc \<longleftrightarrow> params argv \<noteq> []"
proof -
  have "1 <s argc \<longleftrightarrow> 1 < length argv"
    using assms by (simp add: well_formed_def word_sless_alt)
  also have "\<dots> \<longleftrightarrow> params argv \<noteq> []"
    by (cases argv) (simp_all add: params_def)
  finally show ?thesis .
qed

text \<open>The whole run of a well-formed invocation, in closed form.\<close>

lemma main_closed:
  assumes "well_formed argc argv"
  shows "main v c argc argv =
    Some (\<lparr>stdout = banner_line @ [nl] @ version_line v @ [nl] @
              (if params argv = [] then []
               else header_line @ [nl] @
                 concat (map (\<lambda>(k, p). arg_line k p @ [nl]) (numbered (params argv)))) @
              sum_line (c 10 20) @ [nl],
            visited = map of_nat [1..<length argv]\<rparr>, 0)"
proof (cases "1 <s argc")
  case False
  then have none: "params argv = []"
    using more_than_one [OF assms] by simp
  then have "[1..<length argv] = []"
    by (cases argv) (simp_all add: params_def)
  with False none show ?thesis
    unfolding main_def printf_banner printf_version printf_sum
    by (simp add: init_def)
next
  case True
  then have some: "params argv \<noteq> []"
    using more_than_one [OF assms] by simp
  have "1 \<le> sint argc"
    using True by (simp add: word_sless_alt)
  then have loop: "arg_loop argc argv 1 st =
    Some (st\<lparr>stdout := stdout st @ concat (map (\<lambda>k. arg_line k (argv ! k) @ [nl]) [1..<length argv]),
             visited := visited st @ map of_nat [1..<length argv]\<rparr>)" for st
    using arg_loop_closed [OF assms, of 1 st] by simp
  have recs: "map (\<lambda>k. arg_line k (argv ! k) @ [nl]) [Suc 0..<length argv] =
      map (\<lambda>(k, p). arg_line k p @ [nl]) (numbered (params argv))"
    by (rule index_numbered [of "\<lambda>k p. arg_line k p @ [nl]"])
  from True some show ?thesis
    unfolding main_def printf_banner printf_version printf_header printf_sum
    by (simp add: loop recs init_def)
qed

lemma run_output_closed:
  assumes "well_formed argc argv"
  shows "run_output v c argc argv =
    Some (banner_line @ [nl] @ version_line v @ [nl] @
              (if params argv = [] then []
               else header_line @ [nl] @
                 concat (map (\<lambda>(k, p). arg_line k p @ [nl]) (numbered (params argv)))) @
              sum_line (c 10 20) @ [nl])"
  by (simp add: run_output_def main_closed [OF assms])

subsection \<open>Lines\<close>

lemma lines_of_line: "nl \<notin> set l \<Longrightarrow> lines_of (l @ nl # rest) = l # lines_of rest"
  by (induction l) auto

lemma lines_of_single: "nl \<notin> set l \<Longrightarrow> lines_of (l @ [nl]) = [l]"
  using lines_of_line [of l "[]"] by simp

lemma lines_of_nonempty: "lines_of (a @ nl # b) \<noteq> []"
  by (induction a) (auto split: list.splits)

lemma lines_of_append: "lines_of (a @ nl # b) = lines_of (a @ [nl]) @ lines_of b"
proof (induction a)
  case Nil
  show ?case by simp
next
  case (Cons c a)
  obtain l ls where full: "lines_of (a @ nl # b) = l # ls"
    using lines_of_nonempty [of a b] by (cases "lines_of (a @ nl # b)") auto
  obtain l' ls' where part: "lines_of (a @ [nl]) = l' # ls'"
    using lines_of_nonempty [of a "[]"] by (cases "lines_of (a @ [nl])") auto
  from Cons.IH full part have "l # ls = (l' # ls') @ lines_of b"
    by simp
  then have "l = l'" and "ls = ls' @ lines_of b"
    by simp_all
  with full part Cons.IH show ?case
    by simp
qed

lemma lines_of_records:
  "lines_of (concat (map (\<lambda>(k, p). f k p @ [nl]) xs) @ rest) =
   concat (map (\<lambda>(k, p). lines_of (f k p @ [nl])) xs) @ lines_of rest"
proof (induction xs)
  case Nil
  show ?case by simp
next
  case (Cons x xs)
  obtain k p where x: "x = (k, p)"
    by (cases x)
  have "lines_of (concat (map (\<lambda>(k, p). f k p @ [nl]) (x # xs)) @ rest) =
        lines_of (f k p @ nl # (concat (map (\<lambda>(k, p). f k p @ [nl]) xs) @ rest))"
    by (simp add: x)
  also have "\<dots> = lines_of (f k p @ [nl]) @ lines_of (concat (map (\<lambda>(k, p). f k p @ [nl]) xs) @ rest)"
    by (rule lines_of_append)
  finally show ?case
    using Cons.IH by (simp add: x)
qed

lemma digit_not_nl: "d < 10 \<Longrightarrow> digit d \<noteq> nl"
proof -
  assume "d < 10"
  then have "d \<in> {0, 1, 2, 3, 4, 5, 6, 7, 8, 9}" by auto
  then show ?thesis
    by (auto simp: digit_def nl_def)
qed

lemma show_nat_no_nl: "nl \<notin> set (show_nat n)"
proof (induction n rule: show_nat.induct)
  case (1 n)
  show ?case
  proof (cases "n < 10")
    case True
    then show ?thesis
      using digit_not_nl [of n] by (auto simp: show_nat.simps [of n])
  next
    case False
    then have "nl \<notin> set (show_nat (n div 10))"
      by (rule "1.IH")
    moreover have "digit (n mod 10) \<noteq> nl"
      by (rule digit_not_nl) simp
    ultimately show ?thesis
      using False by (auto simp: show_nat.simps [of n])
  qed
qed

lemma show_int_no_nl: "nl \<notin> set (show_int k)"
proof -
  have "nl \<noteq> CHR ''-''"
    by (simp add: nl_def)
  then show ?thesis
    by (simp add: show_int_def show_nat_no_nl)
qed

lemma banner_no_nl: "nl \<notin> set banner_line"
  by (simp add: banner_line_def nl_def)

lemma header_no_nl: "nl \<notin> set header_line"
  by (simp add: header_line_def nl_def)

lemma sum_no_nl: "nl \<notin> set (sum_line r)"
proof -
  have "nl \<notin> set ''10 + 20 = ''"
    by (simp add: nl_def)
  then show ?thesis
    by (simp add: sum_line_def show_int_no_nl)
qed

lemma version_no_nl: "nl \<notin> set v \<Longrightarrow> nl \<notin> set (version_line v)"
proof -
  assume v: "nl \<notin> set v"
  have "nl \<notin> set ''Version: ''"
    by (simp add: nl_def)
  with v show ?thesis
    by (simp add: version_line_def)
qed

lemma arg_no_nl: "nl \<notin> set p \<Longrightarrow> nl \<notin> set (arg_line k p)"
proof -
  assume p: "nl \<notin> set p"
  have "nl \<notin> set ''  [''" and "nl \<notin> set '']: ''"
    by (simp_all add: nl_def)
  with p show ?thesis
    by (simp add: arg_line_def show_nat_no_nl)
qed

text \<open>
  The lines of the output of a well-formed invocation, whatever the texts contain: a version
  string or a parameter that contains line feeds contributes its own lines in place.
\<close>

lemma run_lines_closed:
  assumes "well_formed argc argv"
  shows "run_lines v c argc argv =
    Some (banner_line # lines_of (version_line v @ [nl]) @
          (if params argv = [] then []
           else header_line #
             concat (map (\<lambda>(k, p). lines_of (arg_line k p @ [nl])) (numbered (params argv)))) @
          [sum_line (c 10 20)])"
proof -
  let ?recs = "concat (map (\<lambda>(k, p). arg_line k p @ [nl]) (numbered (params argv)))"
  let ?tail = "sum_line (c 10 20) @ [nl]"
  have tail: "lines_of ?tail = [sum_line (c 10 20)]"
    by (rule lines_of_single [OF sum_no_nl])
  have recs: "lines_of (?recs @ ?tail) =
      concat (map (\<lambda>(k, p). lines_of (arg_line k p @ [nl])) (numbered (params argv))) @
      [sum_line (c 10 20)]"
    by (simp only: lines_of_records tail)
  have argsec:
    "lines_of ((if params argv = [] then [] else header_line @ [nl] @ ?recs) @ ?tail) =
     (if params argv = [] then []
      else header_line #
        concat (map (\<lambda>(k, p). lines_of (arg_line k p @ [nl])) (numbered (params argv)))) @
     [sum_line (c 10 20)]"
    using tail recs lines_of_line [OF header_no_nl, of "?recs @ ?tail"] by simp
  define out where "out = banner_line @ [nl] @ version_line v @ [nl] @
      (if params argv = [] then [] else header_line @ [nl] @ ?recs) @ ?tail"
  have ran: "run_output v c argc argv = Some out"
    unfolding out_def by (rule run_output_closed [OF assms])
  have "lines_of out = banner_line # lines_of (version_line v @ nl #
          ((if params argv = [] then [] else header_line @ [nl] @ ?recs) @ ?tail))"
    unfolding out_def using lines_of_line [OF banner_no_nl] by simp
  also have "\<dots> = banner_line # lines_of (version_line v @ [nl]) @
      lines_of ((if params argv = [] then [] else header_line @ [nl] @ ?recs) @ ?tail)"
    by (rule arg_cong [where f = "(#) banner_line", OF lines_of_append])
  finally have "lines_of out = banner_line # lines_of (version_line v @ [nl]) @
      (if params argv = [] then []
       else header_line #
         concat (map (\<lambda>(k, p). lines_of (arg_line k p @ [nl])) (numbered (params argv)))) @
      [sum_line (c 10 20)]"
    by (simp only: argsec)
  with ran show ?thesis
    by (simp only: run_lines_def option.map)
qed

lemma numbered_snd: "(k, p) \<in> set (numbered ps) \<Longrightarrow> p \<in> set ps"
  unfolding numbered_def by (rule set_zip_rightD)

lemma record_lines_single:
  assumes "\<forall>(k, p) \<in> set xs. nl \<notin> set p"
  shows "concat (map (\<lambda>(k, p). lines_of (arg_line k p @ [nl])) xs) =
         map (\<lambda>(k, p). arg_line k p) xs"
  using assms
proof (induction xs)
  case Nil
  show ?case by simp
next
  case (Cons x xs)
  obtain k p where x: "x = (k, p)"
    by (cases x)
  with Cons.prems have "nl \<notin> set (arg_line k p)"
    by (simp add: arg_no_nl)
  then have "lines_of (arg_line k p @ [nl]) = [arg_line k p]"
    by (rule lines_of_single)
  with Cons show ?case
    by (simp add: x)
qed

lemma numbered_clean:
  assumes "\<forall>p \<in> set ps. nl \<notin> set p"
  shows "\<forall>(k, p) \<in> set (numbered ps). nl \<notin> set p"
  using assms by (auto dest: numbered_snd)

lemmas line_texts =
  banner_line_def version_line_def header_line_def arg_line_def sum_line_def
  show_int_def show_nat.simps digit_def params_def numbered_def

lemma sum_line_30: "sum_line 30 = ''10 + 20 = 30''"
  by (simp add: sum_line_def show_int_def show_nat.simps digit_def)

lemma last_line:
  assumes "well_formed argc argv"
  shows "map_option last (run_lines v c argc argv) = Some (sum_line (c 10 20))"
  by (simp add: run_lines_closed [OF assms])

lemma header_is_no_line:
  "header_line \<noteq> banner_line" "header_line \<noteq> version_line v" "header_line \<noteq> sum_line r"
  by (simp_all add: header_line_def banner_line_def version_line_def sum_line_def)

lemma arg_is_no_line:
  "arg_line k p \<noteq> banner_line" "arg_line k p \<noteq> version_line v" "arg_line k p \<noteq> sum_line r"
  by (simp_all add: arg_line_def banner_line_def version_line_def sum_line_def)

lemma run_output_section:
  assumes "well_formed argc argv"
  shows "run_output v c argc argv =
    Some (banner_line @ [nl] @ version_line v @ [nl] @ args_section (params argv) @
          sum_line (c 10 20) @ [nl])"
  by (simp add: run_output_closed [OF assms] args_section_def)

lemma run_visited_closed:
  assumes "well_formed argc argv"
  shows "run_visited v c argc argv = Some (map of_nat [1..<length argv])"
  by (simp add: run_visited_def main_closed [OF assms])

lemma run_exit_closed:
  assumes "well_formed argc argv"
  shows "run_exit v c argc argv = Some 0"
  by (simp add: run_exit_def main_closed [OF assms])

lemma concat_terminated:
  "concat (map ((\<lambda>l. l @ [nl]) \<circ> (\<lambda>(k, p). arg_line k p)) xs) =
   concat (map (\<lambda>(k, p). arg_line k p @ [nl]) xs)"
  by (induction xs) auto

text \<open>The text written, character for character, whatever the strings contain.\<close>

lemma text_written:
  assumes "well_formed argc argv"
  shows "run_output v c argc argv =
    Some (''zbuild Example Project'' @ [nl] @
          ''Version: '' @ v @ [nl] @
          (if params argv = [] then []
           else ''Arguments:'' @ [nl] @
             concat (map (\<lambda>(k, p). ''  ['' @ show_nat k @ '']: '' @ p @ [nl])
               (numbered (params argv)))) @
          ''10 + 20 = '' @ show_int (sint (c 10 20)) @ [nl])"
  by (simp add: run_output_closed [OF assms] banner_line_def version_line_def header_line_def
      arg_line_def sum_line_def)

subsection \<open>The claims\<close>

text \<open>
  C1, as amended. For every invocation with \<open>N \<ge> 1\<close> parameters, none of which contains
  a line feed, the lines of the output are the banner line, the lines of the version text,
  the \<open>Arguments:\<close> header, then exactly \<open>N\<close> lines, one per parameter in the order
  received, each showing the parameter's 1-based position and its exact text, and last the
  sum line.
\<close>

theorem argument_lines:
  assumes "well_formed argc argv"
    and "params argv \<noteq> []"
    and "\<forall>p \<in> set (params argv). nl \<notin> set p"
  shows "run_lines get_version calculate argc argv =
    Some (banner_line # lines_of (version_line get_version @ [nl]) @
          header_line # map (\<lambda>(k, p). arg_line k p) (numbered (params argv)) @
          [sum_line (calculate 10 20)])"
  using run_lines_closed [OF assms(1), of get_version calculate] assms(2)
  by (simp add: record_lines_single [OF numbered_clean [OF assms(3)]])

theorem argument_lines_witness:
  "well_formed 3 [''prog'', ''foo'', ''bar baz''] \<and>
   params [''prog'', ''foo'', ''bar baz''] \<noteq> [] \<and>
   nl \<notin> set ''foo'' \<and> nl \<notin> set ''bar baz'' \<and>
   run_lines ''1.0.0'' (+) 3 [''prog'', ''foo'', ''bar baz''] =
     Some [''zbuild Example Project'', ''Version: 1.0.0'', ''Arguments:'',
           ''  [1]: foo'', ''  [2]: bar baz'', ''10 + 20 = 30'']"
proof -
  have wf: "well_formed 3 [''prog'', ''foo'', ''bar baz'']"
    by (simp add: well_formed_def)
  have ne: "params [''prog'', ''foo'', ''bar baz''] \<noteq> []"
    by (simp add: params_def)
  have clean: "\<forall>p \<in> set (params [''prog'', ''foo'', ''bar baz'']). nl \<notin> set p"
    by (simp add: params_def nl_def)
  show ?thesis
    using wf ne clean argument_lines [OF wf ne clean, of "''1.0.0''" "(+)"]
    by (simp add: line_texts nl_def)
qed

text \<open>
  C1 as stated has no condition on the parameters. A parameter is echoed verbatim, so one
  that contains a line feed takes more than one line: with the single parameter \<open>a\<close>,
  line feed, \<open>b\<close> the header is followed by two lines before the sum line, and neither
  shows the exact text of the parameter.
\<close>

theorem argument_lines_counterexample:
  "well_formed 2 [''prog'', ''a'' @ [nl] @ ''b''] \<and>
   params [''prog'', ''a'' @ [nl] @ ''b''] \<noteq> [] \<and>
   run_lines ''1.0.0'' (+) 2 [''prog'', ''a'' @ [nl] @ ''b''] =
     Some [''zbuild Example Project'', ''Version: 1.0.0'', ''Arguments:'',
           ''  [1]: a'', ''b'', ''10 + 20 = 30''] \<and>
   run_lines ''1.0.0'' (+) 2 [''prog'', ''a'' @ [nl] @ ''b''] \<noteq>
     Some [banner_line, version_line ''1.0.0'', header_line,
           arg_line 1 (''a'' @ [nl] @ ''b''), sum_line 30]"
proof -
  have "run_lines ''1.0.0'' (+) 2 [''prog'', ''a'' @ [nl] @ ''b''] =
     Some [''zbuild Example Project'', ''Version: 1.0.0'', ''Arguments:'',
           ''  [1]: a'', ''b'', ''10 + 20 = 30'']"
    by (simp add: run_lines_def run_output_def run_code)
  then show ?thesis
    by (simp add: well_formed_def line_texts nl_def)
qed

text \<open>
  C2. When the adder is conforming, that is \<open>calculate(10, 20)\<close> returns 30, the last
  line of the output is exactly \<open>10 + 20 = 30\<close>, whatever the parameters and the
  version string are.
\<close>

theorem sum_line_conforming:
  assumes "well_formed argc argv" and "calculate 10 20 = 30"
  shows "map_option last (run_lines get_version calculate argc argv) = Some ''10 + 20 = 30''"
  using last_line [OF assms(1), of get_version calculate] assms(2)
  by (simp only: sum_line_30)

theorem sum_line_conforming_witness:
  "well_formed 3 [''prog'', ''foo'', ''10 + 20 = 99''] \<and> (10 :: cint) + 20 = 30 \<and>
   map_option last (run_lines ''1.0.0'' (+) 3 [''prog'', ''foo'', ''10 + 20 = 99'']) =
     Some ''10 + 20 = 30''"
proof -
  have wf: "well_formed 3 [''prog'', ''foo'', ''10 + 20 = 99'']"
    by (simp add: well_formed_def)
  have conforming: "(10 :: cint) + 20 = 30"
    by simp
  show ?thesis
    using wf conforming sum_line_conforming [where calculate = "(+)" and get_version = "''1.0.0''", OF wf conforming]
    by simp
qed

text \<open>
  C3. For an invocation with no parameters the output consists of exactly three lines, the
  banner line, the version line and the sum line; none of them is the \<open>Arguments:\<close>
  header and none is an argument line. The version string is what the specification says
  the version provider returns, a version identifier.
\<close>

theorem no_parameters:
  assumes "well_formed argc argv" and "params argv = []" and "version_identifier get_version"
  shows "run_lines get_version calculate argc argv =
      Some [banner_line, version_line get_version, sum_line (calculate 10 20)] \<and>
    header_line \<notin> {banner_line, version_line get_version, sum_line (calculate 10 20)} \<and>
    (\<forall>k p. arg_line k p \<notin> {banner_line, version_line get_version, sum_line (calculate 10 20)})"
proof -
  have "nl \<notin> set get_version"
    using assms(3) by (simp add: version_identifier_def)
  then have "lines_of (version_line get_version @ [nl]) = [version_line get_version]"
    by (rule lines_of_single [OF version_no_nl])
  then have "run_lines get_version calculate argc argv =
      Some [banner_line, version_line get_version, sum_line (calculate 10 20)]"
    using assms(2) by (simp add: run_lines_closed [OF assms(1)])
  then show ?thesis
    by (simp add: header_is_no_line arg_is_no_line)
qed

theorem no_parameters_witness:
  "well_formed 1 [''prog''] \<and> params [''prog''] = [] \<and> version_identifier ''1.0.0'' \<and>
   run_lines ''1.0.0'' (+) 1 [''prog''] =
     Some [''zbuild Example Project'', ''Version: 1.0.0'', ''10 + 20 = 30'']"
proof -
  have wf: "well_formed 1 [''prog'']"
    by (simp add: well_formed_def)
  have none: "params [''prog''] = []"
    by (simp add: params_def)
  have ident: "version_identifier ''1.0.0''"
    by (simp add: version_identifier_def nl_def)
  show ?thesis
    using wf none ident no_parameters [OF wf none ident, of "(+)"]
    by (simp add: banner_line_def version_line_def sum_line_30)
qed

text \<open>
  C4, as amended. For every invocation whose parameters contain no line feed, the exact
  text of each output line is: the banner line \<open>zbuild Example Project\<close>; the version
  line, \<open>Version: \<close> followed by the version provider's string; when there are
  parameters, the header line \<open>Arguments:\<close> and for each parameter the line of two
  spaces, \<open>[\<close>, the position in decimal, \<open>]: \<close> and the parameter; the sum line,
  \<open>10 + 20 = \<close> followed by the adder's result in decimal. These are all the lines of
  the output. The version string is what the specification says the version provider
  returns, a version identifier.
\<close>

theorem line_formats:
  assumes "well_formed argc argv"
    and "version_identifier get_version"
    and "\<forall>p \<in> set (params argv). nl \<notin> set p"
  shows "run_lines get_version calculate argc argv =
    Some (''zbuild Example Project'' #
          (''Version: '' @ get_version) #
          (if params argv = [] then []
           else ''Arguments:'' #
             map (\<lambda>(k, p). ''  ['' @ show_nat k @ '']: '' @ p) (numbered (params argv))) @
          [''10 + 20 = '' @ show_int (sint (calculate 10 20))])"
proof -
  have "nl \<notin> set get_version"
    using assms(2) by (simp add: version_identifier_def)
  then have ver: "lines_of (version_line get_version @ [nl]) = [version_line get_version]"
    by (rule lines_of_single [OF version_no_nl])
  have "run_lines get_version calculate argc argv =
    Some (banner_line # version_line get_version #
          (if params argv = [] then []
           else header_line # map (\<lambda>(k, p). arg_line k p) (numbered (params argv))) @
          [sum_line (calculate 10 20)])"
    by (simp add: run_lines_closed [OF assms(1)] ver
        record_lines_single [OF numbered_clean [OF assms(3)]])
  then show ?thesis
    by (simp add: banner_line_def version_line_def header_line_def sum_line_def
        arg_line_def [abs_def])
qed

theorem line_formats_witness:
  "well_formed 3 [''prog'', ''hello world'', ''x''] \<and> version_identifier ''2.1'' \<and>
   nl \<notin> set ''hello world'' \<and> nl \<notin> set ''x'' \<and>
   run_lines ''2.1'' (+) 3 [''prog'', ''hello world'', ''x''] =
     Some [''zbuild Example Project'', ''Version: 2.1'', ''Arguments:'',
           ''  [1]: hello world'', ''  [2]: x'', ''10 + 20 = 30'']"
proof -
  have wf: "well_formed 3 [''prog'', ''hello world'', ''x'']"
    by (simp add: well_formed_def)
  have ident: "version_identifier ''2.1''"
    by (simp add: version_identifier_def nl_def)
  have clean: "\<forall>p \<in> set (params [''prog'', ''hello world'', ''x'']). nl \<notin> set p"
    by (simp add: params_def nl_def)
  show ?thesis
    using wf ident clean line_formats [OF wf ident clean, of "(+)"]
    by (simp add: params_def numbered_def show_int_def show_nat.simps digit_def nl_def)
qed

text \<open>
  C4 as stated has no condition on the parameters. With the single parameter \<open>a\<close>, line
  feed, \<open>b\<close> the output has the line \<open>b\<close>, which is none of the lines that the
  formats give for this run, and the line \<open>  [1]: a\<close>, which does not show the value of
  the parameter.
\<close>

theorem line_formats_counterexample:
  "well_formed 2 [''prog'', ''a'' @ [nl] @ ''b''] \<and> version_identifier ''1.0.0'' \<and>
   run_lines ''1.0.0'' (+) 2 [''prog'', ''a'' @ [nl] @ ''b''] =
     Some [''zbuild Example Project'', ''Version: 1.0.0'', ''Arguments:'',
           ''  [1]: a'', ''b'', ''10 + 20 = 30''] \<and>
   ''b'' \<notin> set [''zbuild Example Project'', ''Version: '' @ ''1.0.0'', ''Arguments:'',
                  ''  ['' @ show_nat 1 @ '']: '' @ (''a'' @ [nl] @ ''b''),
                  ''10 + 20 = '' @ show_int (sint ((10 :: cint) + 20))] \<and>
   ''  [1]: a'' \<noteq> ''  ['' @ show_nat 1 @ '']: '' @ (''a'' @ [nl] @ ''b'')"
proof -
  have "run_lines ''1.0.0'' (+) 2 [''prog'', ''a'' @ [nl] @ ''b''] =
     Some [''zbuild Example Project'', ''Version: 1.0.0'', ''Arguments:'',
           ''  [1]: a'', ''b'', ''10 + 20 = 30'']"
    by (simp add: run_lines_def run_output_def run_code)
  then show ?thesis
    by (simp add: well_formed_def version_identifier_def show_int_def show_nat.simps digit_def
        nl_def)
qed

text \<open>
  C5. For every invocation the output is, in this order: the banner line, the version line,
  only when there is a parameter the header line and the argument lines in the order of the
  parameters, and last the sum line. The first statement is about the text written, each
  line with its line feed; the second is about the lines of that text, where a version string
  or a parameter that itself contains line feeds contributes its lines in place.
\<close>

theorem line_order:
  assumes "well_formed argc argv"
  shows "run_output get_version calculate argc argv =
      Some (concat (map (\<lambda>l. l @ [nl])
        ([banner_line, version_line get_version] @
         (if params argv = [] then []
          else header_line # map (\<lambda>(k, p). arg_line k p) (numbered (params argv))) @
         [sum_line (calculate 10 20)]))) \<and>
    run_lines get_version calculate argc argv =
      Some (banner_line # lines_of (version_line get_version @ [nl]) @
        (if params argv = [] then []
         else header_line #
           concat (map (\<lambda>(k, p). lines_of (arg_line k p @ [nl])) (numbered (params argv)))) @
        [sum_line (calculate 10 20)])"
proof
  show "run_output get_version calculate argc argv =
      Some (concat (map (\<lambda>l. l @ [nl])
        ([banner_line, version_line get_version] @
         (if params argv = [] then []
          else header_line # map (\<lambda>(k, p). arg_line k p) (numbered (params argv))) @
         [sum_line (calculate 10 20)])))"
    by (simp add: run_output_closed [OF assms] concat_terminated)
next
  show "run_lines get_version calculate argc argv =
      Some (banner_line # lines_of (version_line get_version @ [nl]) @
        (if params argv = [] then []
         else header_line #
           concat (map (\<lambda>(k, p). lines_of (arg_line k p @ [nl])) (numbered (params argv)))) @
        [sum_line (calculate 10 20)])"
    by (rule run_lines_closed [OF assms])
qed

theorem line_order_witness:
  "well_formed 2 [''prog'', ''hello''] \<and>
   run_output ''1.0.0'' (+) 2 [''prog'', ''hello''] =
     Some (concat (map (\<lambda>l. l @ [nl])
       [''zbuild Example Project'', ''Version: 1.0.0'', ''Arguments:'', ''  [1]: hello'',
        ''10 + 20 = 30''])) \<and>
   run_lines ''1.0.0'' (+) 2 [''prog'', ''hello''] =
     Some [''zbuild Example Project'', ''Version: 1.0.0'', ''Arguments:'', ''  [1]: hello'',
           ''10 + 20 = 30'']"
proof -
  have wf: "well_formed 2 [''prog'', ''hello'']"
    by (simp add: well_formed_def)
  show ?thesis
    using wf line_order [OF wf, of "''1.0.0''" "(+)"]
    by (simp add: line_texts nl_def)
qed

text \<open>
  C6. For every invocation the exit code is 0: \<open>main\<close> returns, and the value it
  returns is 0. There is no other return in \<open>main\<close>.
\<close>

theorem exit_code_zero:
  assumes "well_formed argc argv"
  shows "run_exit get_version calculate argc argv = Some 0"
  by (simp add: run_exit_def main_closed [OF assms])

theorem exit_code_zero_witness:
  "well_formed 3 [''prog'', ''foo'', ''bar baz''] \<and>
   run_exit ''1.0.0'' (+) 3 [''prog'', ''foo'', ''bar baz''] = Some 0"
proof -
  have wf: "well_formed 3 [''prog'', ''foo'', ''bar baz'']"
    by (simp add: well_formed_def)
  show ?thesis
    using wf exit_code_zero [OF wf, of "''1.0.0''" "(+)"] by simp
qed

text \<open>
  C7. Two runs with the same parameters, the same version string and adders that return the
  same result for \<open>(10, 20)\<close> write the same text and exit with the same code. The
  program name in \<open>argv[0]\<close> and the adder's results elsewhere make no difference.
\<close>

theorem deterministic_run:
  assumes "well_formed argc argv" and "well_formed argc' argv'"
    and "params argv = params argv'"
    and "calculate 10 20 = calculate' 10 20"
  shows "run_output get_version calculate argc argv \<noteq> None \<and>
    run_output get_version calculate argc argv = run_output get_version calculate' argc' argv' \<and>
    run_exit get_version calculate argc argv = run_exit get_version calculate' argc' argv'"
  using assms(3,4)
  by (simp add: run_output_section [OF assms(1)] run_output_section [OF assms(2)]
      run_exit_closed [OF assms(1)] run_exit_closed [OF assms(2)])

theorem deterministic_run_witness:
  "well_formed 2 [''prog'', ''foo''] \<and> well_formed 2 [''./other'', ''foo''] \<and>
   params [''prog'', ''foo''] = params [''./other'', ''foo''] \<and>
   (10 :: cint) + 20 = (\<lambda>a b. 30) (10 :: cint) (20 :: cint) \<and>
   run_output ''1.0.0'' (+) 2 [''prog'', ''foo''] =
     run_output ''1.0.0'' (\<lambda>a b. 30) 2 [''./other'', ''foo''] \<and>
   run_exit ''1.0.0'' (+) 2 [''prog'', ''foo''] =
     run_exit ''1.0.0'' (\<lambda>a b. 30) 2 [''./other'', ''foo'']"
proof -
  have wf: "well_formed 2 [''prog'', ''foo'']"
    by (simp add: well_formed_def)
  have wf': "well_formed 2 [''./other'', ''foo'']"
    by (simp add: well_formed_def)
  have same: "params [''prog'', ''foo''] = params [''./other'', ''foo'']"
    by (simp add: params_def)
  have agree: "(10 :: cint) + 20 = (\<lambda>a b. 30) (10 :: cint) (20 :: cint)"
    by simp
  show ?thesis
    using wf wf' same agree
      deterministic_run [where calculate = "(+)" and calculate' = "\<lambda>a b. 30"
        and get_version = "''1.0.0''", OF wf wf' same agree]
    by simp
qed

text \<open>
  C8. For every invocation \<open>main\<close> returns. The loop body runs exactly once for each
  \<open>i\<close> from 1 up to \<open>argc - 1\<close>, in this order, that is once per parameter.
  (\<open>arg_loop\<close> is total; its termination proof is with its definition.)
\<close>

theorem terminates_once_per_parameter:
  assumes "well_formed argc argv"
  shows "\<exists>st. main get_version calculate argc argv = Some (st, 0) \<and>
    visited st = map of_nat [1..<nat (sint argc)] \<and>
    length (visited st) = length (params argv)"
proof -
  have "nat (sint argc) = length argv"
    using assms by (simp add: well_formed_def)
  then show ?thesis
    by (simp add: main_closed [OF assms] params_def)
qed

theorem terminates_once_per_parameter_witness:
  "well_formed 3 [''prog'', ''foo'', ''bar baz''] \<and>
   (\<exists>st. main ''1.0.0'' (+) 3 [''prog'', ''foo'', ''bar baz''] = Some (st, 0) \<and>
     visited st = [1, 2] \<and> length (visited st) = 2)"
proof -
  have wf: "well_formed 3 [''prog'', ''foo'', ''bar baz'']"
    by (simp add: well_formed_def)
  have "map of_nat [1..<nat (sint (3 :: cint))] = [1, 2 :: cint]"
    by (simp add: upt_conv_Cons)
  then show ?thesis
    using wf terminates_once_per_parameter [OF wf, of "''1.0.0''" "(+)"]
    by (auto simp: params_def)
qed

text \<open>
  C9. The result of the adder is printed as it is: for every \<open>r\<close> that
  \<open>calculate(10, 20)\<close> returns, the last line of the output is \<open>10 + 20 = \<close>
  followed by \<open>r\<close> in decimal. The witness is an adder that subtracts.
\<close>

theorem sum_line_unvalidated:
  assumes "well_formed argc argv" and "calculate 10 20 = r"
  shows "map_option last (run_lines get_version calculate argc argv) =
    Some (''10 + 20 = '' @ show_int (sint r))"
  using last_line [OF assms(1), of get_version calculate] assms(2)
  by (simp add: sum_line_def)

theorem sum_line_unvalidated_witness:
  "well_formed 1 [''prog''] \<and> (10 :: cint) - 20 = - 10 \<and>
   map_option last (run_lines ''1.0.0'' (-) 1 [''prog'']) = Some ''10 + 20 = -10''"
proof -
  have wf: "well_formed 1 [''prog'']"
    by (simp add: well_formed_def)
  have wrong: "(10 :: cint) - 20 = - 10"
    by simp
  have "show_int (sint (- 10 :: cint)) = ''-10''"
    by (simp add: show_int_def show_nat.simps digit_def)
  then show ?thesis
    using wf wrong sum_line_unvalidated [where calculate = "(-)" and get_version = "''1.0.0''", OF wf wrong]
    by simp
qed

text \<open>
  C10. Two runs with the same number of parameters and the same collaborators: the banner
  line, the version line and the sum line are the same text at the same place, and only the
  arguments section between them depends on the parameters. The loop body runs for the same
  values of \<open>i\<close> in both runs, and both return the same exit code.
\<close>

theorem parameters_only_in_arguments_section:
  assumes "well_formed argc argv" and "well_formed argc argv'"
  shows "run_output get_version calculate argc argv =
      Some (banner_line @ [nl] @ version_line get_version @ [nl] @
            args_section (params argv) @ sum_line (calculate 10 20) @ [nl]) \<and>
    run_output get_version calculate argc argv' =
      Some (banner_line @ [nl] @ version_line get_version @ [nl] @
            args_section (params argv') @ sum_line (calculate 10 20) @ [nl]) \<and>
    run_visited get_version calculate argc argv = run_visited get_version calculate argc argv' \<and>
    run_visited get_version calculate argc argv \<noteq> None \<and>
    run_exit get_version calculate argc argv = run_exit get_version calculate argc argv'"
proof -
  have "length argv = length argv'"
    using assms by (simp add: well_formed_def)
  then show ?thesis
    by (simp add: run_output_section [OF assms(1)] run_output_section [OF assms(2)]
      run_visited_closed [OF assms(1)] run_visited_closed [OF assms(2)]
      run_exit_closed [OF assms(1)] run_exit_closed [OF assms(2)])
qed

theorem parameters_only_in_arguments_section_witness:
  "well_formed 2 [''prog'', ''foo''] \<and> well_formed 2 [''prog'', ''bar baz''] \<and>
   run_output ''1.0.0'' (+) 2 [''prog'', ''foo''] =
     Some (''zbuild Example Project'' @ [nl] @ ''Version: 1.0.0'' @ [nl] @
           (''Arguments:'' @ [nl] @ ''  [1]: foo'' @ [nl]) @ ''10 + 20 = 30'' @ [nl]) \<and>
   run_output ''1.0.0'' (+) 2 [''prog'', ''bar baz''] =
     Some (''zbuild Example Project'' @ [nl] @ ''Version: 1.0.0'' @ [nl] @
           (''Arguments:'' @ [nl] @ ''  [1]: bar baz'' @ [nl]) @ ''10 + 20 = 30'' @ [nl]) \<and>
   run_visited ''1.0.0'' (+) 2 [''prog'', ''foo''] =
     run_visited ''1.0.0'' (+) 2 [''prog'', ''bar baz'']"
proof -
  have wf: "well_formed 2 [''prog'', ''foo'']"
    by (simp add: well_formed_def)
  have wf': "well_formed 2 [''prog'', ''bar baz'']"
    by (simp add: well_formed_def)
  show ?thesis
    using wf wf' parameters_only_in_arguments_section [OF wf wf', of "''1.0.0''" "(+)"]
    by (simp add: args_section_def line_texts)
qed

end
